theory Spec2Isabelle
  imports Main "HOL-Library.Char_ord" "HOL-Library.Multiset"
begin

section \<open>MetroWave: playback queue and play-request coordination\<close>

text \<open>
  A shallow embedding of the playback core of \<^verbatim>\<open>src/renderer.js\<close> (the functions
  \<^verbatim>\<open>playAudioAndUpdateUI\<close>, \<^verbatim>\<open>playSong\<close> and the class \<^verbatim>\<open>QueueManager\<close>) and of the
  video-id validation of \<^verbatim>\<open>src/preload.js\<close>.

  JavaScript is single threaded: an \<^verbatim>\<open>async\<close> function runs up to its next \<^verbatim>\<open>await\<close>,
  and the rest of it runs when the awaited promise settles. Each function is therefore
  modelled as a state transformer that returns the new state together with the
  continuations it has left waiting; a continuation is resumed with the settlement of
  its promise by \<open>resume\<close>.
\<close>

subsection \<open>Values of \<^verbatim>\<open>preload.js\<close>\<close>

text \<open>A string is the list of its code units; numbers are not computed with here.\<close>

datatype jsval =
    JUndefined
  | JNull
  | JBool bool
  | JNum int
  | JStr string
  | JArray "jsval list"
  | JObject

text \<open>The promise an exposed operation returns: one that is already resolved, or the one
  of \<^verbatim>\<open>ipcRenderer.invoke(channel, ...args)\<close>, the only way to the main process.\<close>

datatype exposed_promise =
    PromiseResolve jsval
  | IpcInvoke string "jsval list"

text \<open>The character class \<^verbatim>\<open>[a-zA-Z0-9_-]\<close>.\<close>

definition id_class :: "char \<Rightarrow> bool" where
  "id_class c \<longleftrightarrow>
     (CHR ''a'' \<le> c \<and> c \<le> CHR ''z'') \<or> (CHR ''A'' \<le> c \<and> c \<le> CHR ''Z'') \<or>
     (CHR ''0'' \<le> c \<and> c \<le> CHR ''9'') \<or> c = CHR ''_'' \<or> c = CHR ''-''"

text \<open>\<^verbatim>\<open>/^[a-zA-Z0-9_-]+$/.test(s)\<close>: without the \<^verbatim>\<open>m\<close> flag the anchors are the two ends
  of the input, and \<^verbatim>\<open>+\<close> asks for one character at least.\<close>

definition regex_id_test :: "string \<Rightarrow> bool" where
  "regex_id_test s \<longleftrightarrow> s \<noteq> [] \<and> list_all id_class s"

definition isValidVideoId :: "jsval \<Rightarrow> bool" where
  "isValidVideoId videoId =
     (case videoId of
        JStr s \<Rightarrow> length s = 11 \<and> regex_id_test s
      | _ \<Rightarrow> False)"

definition getUpNexts :: "jsval \<Rightarrow> jsval \<Rightarrow> exposed_promise" where
  "getUpNexts videoId countryCode =
     (if isValidVideoId videoId then IpcInvoke ''get-up-nexts'' [videoId, countryCode]
      else PromiseResolve (JArray []))"

definition getAudioStream :: "jsval \<Rightarrow> exposed_promise" where
  "getAudioStream videoId =
     (if isValidVideoId videoId then IpcInvoke ''get-audio-stream'' [videoId]
      else PromiseResolve JNull)"

definition getVideoStream :: "jsval \<Rightarrow> exposed_promise" where
  "getVideoStream videoId =
     (if isValidVideoId videoId then IpcInvoke ''get-video-stream'' [videoId]
      else PromiseResolve JNull)"

text \<open>The claim's words, to compare with: an 11-character string over the 64 characters
  \<^verbatim>\<open>a-z\<close>, \<^verbatim>\<open>A-Z\<close>, \<^verbatim>\<open>0-9\<close>, \<^verbatim>\<open>_\<close> and \<^verbatim>\<open>-\<close>.\<close>

definition spec_id_alphabet :: "char set" where
  "spec_id_alphabet =
     set ''abcdefghijklmnopqrstuvwxyzABCDEFGHIJKLMNOPQRSTUVWXYZ0123456789_-''"

definition spec_eleven_char_id :: "jsval \<Rightarrow> bool" where
  "spec_eleven_char_id v =
     (case v of
        JStr s \<Rightarrow> length s = 11 \<and> set s \<subseteq> spec_id_alphabet
      | _ \<Rightarrow> False)"

subsection \<open>Tracks and the state of the renderer\<close>

text \<open>The \<^verbatim>\<open>artists\<close> field as the catalog delivers it: missing, one bare name, or an
  array (whose elements may be \<^verbatim>\<open>undefined\<close>).\<close>

datatype artists_field =
    ArtistsUndefined
  | ArtistsName string
  | ArtistsArray "string option list"

text \<open>A song object. A missing \<^verbatim>\<open>id\<close> or \<^verbatim>\<open>title\<close> is the empty string, which is falsy
  as \<^verbatim>\<open>undefined\<close> is; \<open>song_thumbnails\<close> holds the \<^verbatim>\<open>url\<close> of each thumbnail.\<close>

record track =
  song_id :: string
  song_title :: string
  song_artists :: artists_field
  song_thumbnails :: "string list"

text \<open>An album or playlist passed to \<^verbatim>\<open>playSong\<close>: browse details carry \<^verbatim>\<open>tracks\<close>,
  local playlists carry \<^verbatim>\<open>songs\<close>.\<close>

record playlist =
  pl_tracks :: "track list option"
  pl_songs :: "track list option"

datatype audio_call = Play | Pause | SeekToStart

text \<open>The fields of \<^verbatim>\<open>QueueManager\<close>, the globals \<^verbatim>\<open>latestPlayRequestToken\<close> and
  \<^verbatim>\<open>isSongLoading\<close>, and what the code writes to the page: the audio element's source
  and the calls made on it, the loading overlay, the player bar's \<^verbatim>\<open>buffering\<close> class, the
  now-playing elements and the toasts of \<^verbatim>\<open>showNotification\<close>.\<close>

record app_state =
  songQueue :: "track list"
  currentSongIndex :: int
  upNextSongs :: "track list"
  prefetchedUrl :: "string option"
  prefetchedId :: "string option"
  playedHistory :: "string list"
  latestPlayRequestToken :: nat
  isSongLoading :: bool
  loadingOverlayShown :: bool
  buffering :: bool
  audioSrc :: string
  audioCalls :: "audio_call list"
  playerThumbnail :: string
  currentSongTitle :: string
  currentSongArtist :: string
  nowPlayingInfoShown :: bool
  notifications :: "(string \<times> string) list"

definition initial_state :: app_state where
  "initial_state =
     \<lparr> songQueue = [], currentSongIndex = -1, upNextSongs = [],
       prefetchedUrl = None, prefetchedId = None, playedHistory = [],
       latestPlayRequestToken = 0, isSongLoading = False,
       loadingOverlayShown = False, buffering = False,
       audioSrc = [], audioCalls = [],
       playerThumbnail = [], currentSongTitle = [], currentSongArtist = [],
       nowPlayingInfoShown = False, notifications = [] \<rparr>"

text \<open>How a promise settles. A rejection carries the \<^verbatim>\<open>message\<close> of its error (empty
  when it has none).\<close>

datatype 'a settled = Fulfilled 'a | Rejected string

text \<open>What \<^verbatim>\<open>getUpNexts\<close> may resolve to: something that is not an array, or an array
  whose elements are song objects or \<^verbatim>\<open>null\<close>.\<close>

datatype upnexts_value = NotAnArray | SongArray "track option list"

text \<open>The suspended rest of an \<^verbatim>\<open>async\<close> function, with the variables it has captured.\<close>

datatype continuation =
    AwaitAudioStream track nat
  | AwaitAudioPlay track nat
  | AwaitPrefetchStream track
  | AwaitUpNexts track

datatype settlement =
    StreamSettled "string option settled"
  | PlaySettled "unit settled"
  | UpNextsSettled "upnexts_value settled"

subsection \<open>Array helpers\<close>

text \<open>\<^verbatim>\<open>xs[i]\<close>: \<^verbatim>\<open>undefined\<close> outside the array.\<close>

definition js_index :: "'a list \<Rightarrow> int \<Rightarrow> 'a option" where
  "js_index xs i = (if 0 \<le> i \<and> i < int (length xs) then Some (xs ! nat i) else None)"

text \<open>\<^verbatim>\<open>xs.findIndex(p)\<close>: the first index where \<open>p\<close> holds, or -1.\<close>

fun findIndex :: "('a \<Rightarrow> bool) \<Rightarrow> 'a list \<Rightarrow> int" where
  "findIndex p [] = -1"
| "findIndex p (x # xs) =
     (if p x then 0 else (let r = findIndex p xs in if r = -1 then -1 else r + 1))"

text \<open>The position \<^verbatim>\<open>splice(start, ...)\<close> works at: a negative start counts from the end,
  and the result is clamped to the array.\<close>

definition splice_start :: "int \<Rightarrow> 'a list \<Rightarrow> nat" where
  "splice_start start xs =
     (if start < 0 then nat (max (int (length xs) + start) 0)
      else min (nat start) (length xs))"

text \<open>\<^verbatim>\<open>xs.splice(start, 0, x)\<close>.\<close>

definition splice_insert :: "int \<Rightarrow> 'a \<Rightarrow> 'a list \<Rightarrow> 'a list" where
  "splice_insert start x xs =
     (let k = splice_start start xs in take k xs @ x # drop k xs)"

text \<open>\<^verbatim>\<open>xs.splice(start, 1)\<close>: the array that is left.\<close>

definition splice_remove :: "int \<Rightarrow> 'a list \<Rightarrow> 'a list" where
  "splice_remove start xs =
     (let k = splice_start start xs in take k xs @ drop (Suc k) xs)"

text \<open>The first element of the array \<^verbatim>\<open>xs.splice(start, 1)\<close> returns.\<close>

definition splice_removed :: "int \<Rightarrow> 'a list \<Rightarrow> 'a option" where
  "splice_removed start xs =
     (let k = splice_start start xs in if k < length xs then Some (xs ! k) else None)"

text \<open>\<^verbatim>\<open>xs.join(', ')\<close> on strings.\<close>

fun join_comma :: "string list \<Rightarrow> string" where
  "join_comma [] = []"
| "join_comma [x] = x"
| "join_comma (x # y # ys) = x @ '', '' @ join_comma (y # ys)"

subsection \<open>History and the prefetch cache\<close>

definition showNotification :: "string \<Rightarrow> string \<Rightarrow> app_state \<Rightarrow> app_state" where
  "showNotification message type st =
     st\<lparr>notifications := notifications st @ [(message, type)]\<rparr>"

definition addToHistory :: "string \<Rightarrow> app_state \<Rightarrow> app_state" where
  "addToHistory songId st =
     (if songId = [] then st
      else
        let filtered = filter (\<lambda>i. i \<noteq> songId) (playedHistory st);
            unshifted = songId # filtered
        in st\<lparr>playedHistory :=
                 (if length unshifted > 50 then butlast unshifted else unshifted)\<rparr>)"

definition getPrefetchedUrl :: "string \<Rightarrow> app_state \<Rightarrow> string option" where
  "getPrefetchedUrl songId st =
     (if prefetchedId st = Some songId then prefetchedUrl st else None)"

definition clearPrefetchedUrl :: "app_state \<Rightarrow> app_state" where
  "clearPrefetchedUrl st = st\<lparr>prefetchedUrl := None, prefetchedId := None\<rparr>"

definition getCurrentItem :: "app_state \<Rightarrow> track option" where
  "getCurrentItem st = js_index (songQueue st) (currentSongIndex st)"

subsection \<open>The play-request coordinator: \<^verbatim>\<open>playAudioAndUpdateUI\<close>\<close>

text \<open>\<^verbatim>\<open>prefetchNext\<close> up to its \<^verbatim>\<open>await\<close>. An index below 0 reads \<^verbatim>\<open>undefined\<close>; the
  TypeError of \<^verbatim>\<open>nextSong.id\<close> is caught at once and the cache, already cleared, is
  cleared again.\<close>

definition prefetchNext :: "app_state \<Rightarrow> app_state \<times> continuation list" where
  "prefetchNext st =
     (let st1 = clearPrefetchedUrl st;
          nextIndex = currentSongIndex st1 + 1
      in if nextIndex < int (length (songQueue st1)) then
           (case js_index (songQueue st1) nextIndex of
              Some nextSong \<Rightarrow> (st1, [AwaitPrefetchStream nextSong])
            | None \<Rightarrow> (st1, []))
         else (st1, []))"

text \<open>The rest of \<^verbatim>\<open>prefetchNext\<close>, when \<^verbatim>\<open>getAudioStream(nextSong.id)\<close> has settled.\<close>

definition resume_prefetch :: "track \<Rightarrow> string option settled \<Rightarrow> app_state \<Rightarrow> app_state" where
  "resume_prefetch nextSong r st =
     (case r of
        Fulfilled url \<Rightarrow> st\<lparr>prefetchedUrl := url, prefetchedId := Some (song_id nextSong)\<rparr>
      | Rejected e \<Rightarrow> clearPrefetchedUrl st)"

text \<open>\<^verbatim>\<open>fetchUpNext\<close> up to its \<^verbatim>\<open>await\<close>.\<close>

definition fetchUpNext :: "app_state \<Rightarrow> app_state \<times> continuation list" where
  "fetchUpNext st =
     (case getCurrentItem st of
        None \<Rightarrow> (st\<lparr>upNextSongs := []\<rparr>, [])
      | Some currentSong \<Rightarrow> (st, [AwaitUpNexts currentSong]))"

text \<open>\<^verbatim>\<open>Array.isArray(song.artists) ? song.artists : [song.artists]\<close>.\<close>

definition normalize_artists :: "artists_field \<Rightarrow> artists_field" where
  "normalize_artists a =
     (case a of
        ArtistsArray xs \<Rightarrow> ArtistsArray xs
      | ArtistsName n \<Rightarrow> ArtistsArray [Some n]
      | ArtistsUndefined \<Rightarrow> ArtistsArray [None])"

text \<open>The rest of \<^verbatim>\<open>fetchUpNext\<close>, when \<^verbatim>\<open>getUpNexts\<close> has settled: the queue and the
  history are read at this moment.\<close>

definition resume_upnexts :: "upnexts_value settled \<Rightarrow> app_state \<Rightarrow> app_state" where
  "resume_upnexts r st =
     (case r of
        Fulfilled upNexts \<Rightarrow>
          (let currentQueueIds = map song_id (songQueue st);
               candidates = (case upNexts of SongArray xs \<Rightarrow> xs | NotAnArray \<Rightarrow> []);
               kept = filter (\<lambda>song. case song of
                                 None \<Rightarrow> False
                               | Some s \<Rightarrow> song_id s \<notin> set (playedHistory st) \<and>
                                           song_id s \<notin> set currentQueueIds) candidates
           in st\<lparr>upNextSongs :=
                    map (\<lambda>song. (the song)\<lparr>song_artists := normalize_artists (song_artists (the song))\<rparr>)
                      kept\<rparr>)
      | Rejected e \<Rightarrow> st\<lparr>upNextSongs := []\<rparr>)"

text \<open>The \<^verbatim>\<open>catch\<close> and \<^verbatim>\<open>finally\<close> blocks of \<^verbatim>\<open>playAudioAndUpdateUI\<close>.\<close>

definition catch_block :: "string \<Rightarrow> app_state \<Rightarrow> app_state" where
  "catch_block message st =
     (if message \<noteq> ''Stale request'' then
        showNotification (if message = [] then ''Could not play song.'' else message) ''error'' st
      else st)"

definition finally_block :: "app_state \<Rightarrow> app_state" where
  "finally_block st = st\<lparr>isSongLoading := False, loadingOverlayShown := False, buffering := False\<rparr>"

text \<open>\<^verbatim>\<open>playAudioAndUpdateUI(song, token)\<close> up to \<^verbatim>\<open>await getAudioStream(song.id)\<close>.\<close>

definition playAudioAndUpdateUI ::
  "track option \<Rightarrow> nat \<Rightarrow> app_state \<Rightarrow> app_state \<times> continuation list" where
  "playAudioAndUpdateUI song token st =
     (case song of
        None \<Rightarrow> (st, [])
      | Some s \<Rightarrow>
          if song_id s = [] then (st, [])
          else if token \<noteq> latestPlayRequestToken st then (st, [])
          else (st\<lparr>isSongLoading := True, loadingOverlayShown := True, buffering := True\<rparr>,
                [AwaitAudioStream s token]))"

text \<open>From the settlement of \<^verbatim>\<open>getAudioStream\<close> up to \<^verbatim>\<open>await audioPlayer.play()\<close>.
  A rejection goes to \<^verbatim>\<open>catch\<close> at once, before the token is compared.\<close>

definition resume_stream ::
  "track \<Rightarrow> nat \<Rightarrow> string option settled \<Rightarrow> app_state \<Rightarrow> app_state \<times> continuation list" where
  "resume_stream song token r st =
     (case r of
        Rejected message \<Rightarrow> (finally_block (catch_block message st), [])
      | Fulfilled streamUrl \<Rightarrow>
          if token \<noteq> latestPlayRequestToken st then
            (finally_block (catch_block ''Stale request'' st), [])
          else if streamUrl = None \<or> streamUrl = Some [] then
            (finally_block (catch_block ''Could not fetch stream URL'' st), [])
          else
            ((clearPrefetchedUrl st)\<lparr>audioSrc := the streamUrl,
                                      audioCalls := audioCalls st @ [Play]\<rparr>,
             [AwaitAudioPlay song token]))"

text \<open>\<^verbatim>\<open>song.thumbnails?.[0]?.url || 'assets/icons/default-art.png'\<close>.\<close>

definition thumbnail_url :: "track \<Rightarrow> string" where
  "thumbnail_url song =
     (case song_thumbnails song of
        [] \<Rightarrow> ''assets/icons/default-art.png''
      | u # _ \<Rightarrow> if u = [] then ''assets/icons/default-art.png'' else u)"

text \<open>\<^verbatim>\<open>(song.artists || []).join(', ')\<close>: \<open>None\<close> is the TypeError of calling \<^verbatim>\<open>join\<close> on
  a non-empty string. An \<^verbatim>\<open>undefined\<close> element joins as the empty string.\<close>

definition artists_text :: "artists_field \<Rightarrow> string option" where
  "artists_text a =
     (case a of
        ArtistsUndefined \<Rightarrow> Some []
      | ArtistsName n \<Rightarrow> if n = [] then Some [] else None
      | ArtistsArray xs \<Rightarrow> Some (join_comma (map (\<lambda>x. case x of None \<Rightarrow> [] | Some n \<Rightarrow> n) xs)))"

text \<open>The rest of \<^verbatim>\<open>playAudioAndUpdateUI\<close>, when \<^verbatim>\<open>audioPlayer.play()\<close> has settled. The
  token is not compared again. \<^verbatim>\<open>updateRecentlyPlayed\<close>, \<^verbatim>\<open>updateLikeButtonState\<close> and
  \<^verbatim>\<open>updateDynamicTheme\<close> write to local storage and to the style sheet only.\<close>

definition resume_play ::
  "track \<Rightarrow> nat \<Rightarrow> unit settled \<Rightarrow> app_state \<Rightarrow> app_state \<times> continuation list" where
  "resume_play song token r st =
     (case r of
        Rejected message \<Rightarrow> (finally_block (catch_block message st), [])
      | Fulfilled u \<Rightarrow>
          (let st1 = st\<lparr>playerThumbnail := thumbnail_url song,
                        currentSongTitle := song_title song\<rparr>
           in case artists_text (song_artists song) of
                None \<Rightarrow>
                  (finally_block
                     (catch_block ''(song.artists || []).join is not a function'' st1), [])
              | Some names \<Rightarrow>
                  (let st2 = st1\<lparr>currentSongArtist := names, nowPlayingInfoShown := True\<rparr>;
                       st3 = addToHistory (song_id song) st2;
                       (st4, c1) = prefetchNext st3;
                       (st5, c2) = fetchUpNext st4
                   in (finally_block st5, c1 @ c2))))"

text \<open>Resuming a continuation with the settlement of its promise. A settlement of the
  wrong kind does not occur; it leaves the state as it is.\<close>

fun resume :: "continuation \<Rightarrow> settlement \<Rightarrow> app_state \<Rightarrow> app_state \<times> continuation list" where
  "resume (AwaitAudioStream song token) (StreamSettled r) st = resume_stream song token r st"
| "resume (AwaitAudioPlay song token) (PlaySettled r) st = resume_play song token r st"
| "resume (AwaitPrefetchStream nextSong) (StreamSettled r) st = (resume_prefetch nextSong r st, [])"
| "resume (AwaitUpNexts currentSong) (UpNextsSettled r) st = (resume_upnexts r st, [])"
| "resume c r st = (st, [])"

subsection \<open>The queue: \<^verbatim>\<open>QueueManager\<close>\<close>

definition setSongForPlayback :: "track \<Rightarrow> playlist option \<Rightarrow> app_state \<Rightarrow> app_state" where
  "setSongForPlayback song sourcePlaylist st =
     (case sourcePlaylist of
        Some pl \<Rightarrow>
          (let tracklist = (case pl_tracks pl of
                              Some ts \<Rightarrow> ts
                            | None \<Rightarrow> (case pl_songs pl of Some ss \<Rightarrow> ss | None \<Rightarrow> []))
           in st\<lparr>songQueue := tracklist,
                 currentSongIndex := findIndex (\<lambda>s. song_id s = song_id song) tracklist\<rparr>)
      | None \<Rightarrow>
          (let existingIndex = findIndex (\<lambda>s. song_id s = song_id song) (songQueue st)
           in if existingIndex \<noteq> -1 then st\<lparr>currentSongIndex := existingIndex\<rparr>
              else st\<lparr>songQueue := splice_insert (currentSongIndex st + 1) song (songQueue st),
                      currentSongIndex := currentSongIndex st + 1\<rparr>))"

text \<open>\<^verbatim>\<open>playSong(song, sourcePlaylist)\<close>; \<open>paused\<close> is what \<^verbatim>\<open>audioPlayer.paused\<close> reads.\<close>

definition playSong ::
  "track option \<Rightarrow> playlist option \<Rightarrow> bool \<Rightarrow> app_state \<Rightarrow> app_state \<times> continuation list" where
  "playSong song sourcePlaylist paused st =
     (case song of
        None \<Rightarrow> (st, [])
      | Some s \<Rightarrow>
          if song_id s = [] then (st, [])
          else if (case getCurrentItem st of
                     None \<Rightarrow> False
                   | Some currentItem \<Rightarrow>
                       audioSrc st \<noteq> [] \<and> song_id s = song_id currentItem \<and> paused)
          then (st\<lparr>audioCalls := audioCalls st @ [Play]\<rparr>, [])
          else
            (let st1 = st\<lparr>latestPlayRequestToken := latestPlayRequestToken st + 1\<rparr>;
                 playToken = latestPlayRequestToken st1;
                 st2 = setSongForPlayback s sourcePlaylist st1
             in playAudioAndUpdateUI (getCurrentItem st2) playToken st2))"

text \<open>\<^verbatim>\<open>addSongToQueue\<close>. When it calls \<^verbatim>\<open>playSong\<close> there is no current item, so
  \<^verbatim>\<open>audioPlayer.paused\<close> is not read.\<close>

definition addSongToQueue :: "track \<Rightarrow> app_state \<Rightarrow> app_state \<times> continuation list" where
  "addSongToQueue song st =
     (let st1 = showNotification ''Added to queue'' ''info''
                  (st\<lparr>songQueue := songQueue st @ [song]\<rparr>)
      in if currentSongIndex st1 = -1 \<and> length (songQueue st1) = 1
         then playSong (js_index (songQueue st1) 0) None False st1
         else (st1, []))"

definition addSongToPlayNext :: "track \<Rightarrow> app_state \<Rightarrow> app_state" where
  "addSongToPlayNext song st =
     showNotification ''Will play next'' ''info''
       (st\<lparr>songQueue := splice_insert (currentSongIndex st + 1) song (songQueue st)\<rparr>)"

definition playNextOrUpNext :: "app_state \<Rightarrow> app_state \<times> continuation list" where
  "playNextOrUpNext st =
     (let st1 = st\<lparr>latestPlayRequestToken := latestPlayRequestToken st + 1\<rparr>;
          playToken = latestPlayRequestToken st1
      in if currentSongIndex st1 < int (length (songQueue st1)) - 1 then
           (let st2 = st1\<lparr>currentSongIndex := currentSongIndex st1 + 1\<rparr>
            in playAudioAndUpdateUI (js_index (songQueue st2) (currentSongIndex st2)) playToken st2)
         else
           (case upNextSongs st1 of
              nextSongToPlay # rest \<Rightarrow>
                (let st2 = st1\<lparr>upNextSongs := rest,
                              songQueue := songQueue st1 @ [nextSongToPlay],
                              currentSongIndex := currentSongIndex st1 + 1\<rparr>
                 in playAudioAndUpdateUI (Some nextSongToPlay) playToken st2)
            | [] \<Rightarrow> (st1\<lparr>audioCalls := audioCalls st1 @ [Pause]\<rparr>, [])))"

text \<open>\<^verbatim>\<open>previous()\<close>; \<open>after3s\<close> is what \<^verbatim>\<open>audioPlayer.currentTime > 3\<close> reads.\<close>

definition previous :: "bool \<Rightarrow> app_state \<Rightarrow> app_state \<times> continuation list" where
  "previous after3s st =
     (if length (songQueue st) = 0 then (st, [])
      else if after3s then (st\<lparr>audioCalls := audioCalls st @ [SeekToStart]\<rparr>, [])
      else if currentSongIndex st > 0 then
        (let st1 = st\<lparr>currentSongIndex := currentSongIndex st - 1\<rparr>;
             st2 = st1\<lparr>latestPlayRequestToken := latestPlayRequestToken st1 + 1\<rparr>
         in playAudioAndUpdateUI (js_index (songQueue st2) (currentSongIndex st2))
              (latestPlayRequestToken st2) st2)
      else (st, []))"

definition removeItem :: "int \<Rightarrow> app_state \<Rightarrow> app_state \<times> continuation list" where
  "removeItem index st =
     (if index < 0 \<or> index \<ge> int (length (songQueue st)) then (st, [])
      else
        (let isRemovingCurrent = (index = currentSongIndex st);
             st1 = st\<lparr>songQueue := splice_remove index (songQueue st)\<rparr>
         in if isRemovingCurrent then
              playNextOrUpNext (st1\<lparr>currentSongIndex := currentSongIndex st1 - 1\<rparr>)
            else if index < currentSongIndex st1 then
              (st1\<lparr>currentSongIndex := currentSongIndex st1 - 1\<rparr>, [])
            else (st1, [])))"

text \<open>\<^verbatim>\<open>reorderItem(oldIndex, newIndex)\<close>. When \<^verbatim>\<open>splice(oldIndex, 1)\<close> removes nothing
  (\<open>oldIndex\<close> at or beyond the end), \<^verbatim>\<open>movedItem\<close> is \<^verbatim>\<open>undefined\<close> and the source inserts it
  into the queue, which is then no sequence of tracks: that is the error value. The
  drag-and-drop list passes positions of queue items only.\<close>

datatype reorder_error = UndefinedInserted

definition reorderItem :: "int \<Rightarrow> int \<Rightarrow> app_state \<Rightarrow> reorder_error + app_state" where
  "reorderItem oldIndex newIndex st =
     (if oldIndex = newIndex then Inr st
      else
        (let currentSongId = (case getCurrentItem st of None \<Rightarrow> [] | Some c \<Rightarrow> song_id c)
         in case splice_removed oldIndex (songQueue st) of
              None \<Rightarrow> Inl UndefinedInserted
            | Some movedItem \<Rightarrow>
                (let st1 = st\<lparr>songQueue :=
                                splice_insert newIndex movedItem
                                  (splice_remove oldIndex (songQueue st))\<rparr>
                 in if currentSongId \<noteq> [] then
                      Inr (st1\<lparr>currentSongIndex :=
                                  findIndex (\<lambda>s. song_id s = currentSongId) (songQueue st1)\<rparr>)
                    else Inr st1)))"

definition playFromUpNext :: "int \<Rightarrow> app_state \<Rightarrow> app_state \<times> continuation list" where
  "playFromUpNext index st =
     (case js_index (upNextSongs st) index of
        None \<Rightarrow> (st, [])
      | Some songToPlay \<Rightarrow>
          (let st1 = st\<lparr>songQueue := songQueue st @ [songToPlay],
                        upNextSongs := splice_remove index (upNextSongs st)\<rparr>;
               st2 = st1\<lparr>currentSongIndex := int (length (songQueue st1)) - 1\<rparr>;
               st3 = st2\<lparr>latestPlayRequestToken := latestPlayRequestToken st2 + 1\<rparr>
           in playAudioAndUpdateUI (Some songToPlay) (latestPlayRequestToken st3) st3))"

subsection \<open>Predicates and inputs used in the statements\<close>

text \<open>What every reachable history satisfies; the empty string never enters it.\<close>

definition history_ok :: "string list \<Rightarrow> bool" where
  "history_ok h \<longleftrightarrow> length h \<le> 50 \<and> distinct h \<and> [] \<notin> set h"

text \<open>Fifty one-letter ids, to fill a history.\<close>

definition fifty_ids :: "string list" where
  "fifty_ids = map (\<lambda>c. [c]) ''abcdefghijklmnopqrstuvwxyzABCDEFGHIJKLMNOPQRSTUVWX''"

text \<open>The invariant of the queue: the cursor is -1 or an index into the sequence.\<close>

definition cursor_ok :: "app_state \<Rightarrow> bool" where
  "cursor_ok st \<longleftrightarrow>
     currentSongIndex st = -1 \<or>
     (0 \<le> currentSongIndex st \<and> currentSongIndex st < int (length (songQueue st)))"

text \<open>\<^verbatim>\<open>Array.isArray\<close> on an \<^verbatim>\<open>artists\<close> field.\<close>

definition isArray :: "artists_field \<Rightarrow> bool" where
  "isArray a = (case a of ArtistsArray xs \<Rightarrow> True | _ \<Rightarrow> False)"

text \<open>Tracks and queue states for the concrete runs.\<close>

definition demo_track :: "string \<Rightarrow> track" where
  "demo_track i =
     \<lparr> song_id = i, song_title = i, song_artists = ArtistsArray [], song_thumbnails = [] \<rparr>"

definition queue_state :: "track list \<Rightarrow> int \<Rightarrow> track list \<Rightarrow> app_state" where
  "queue_state q i up = initial_state\<lparr>songQueue := q, currentSongIndex := i, upNextSongs := up\<rparr>"

subsection \<open>Sequences of requests and of settlements\<close>

text \<open>A sequence of \<^verbatim>\<open>playSong\<close> calls, one after the other with nothing settling in
  between, and the continuations they leave waiting, in the order of the calls.\<close>

fun play_requests ::
  "(track option \<times> playlist option \<times> bool) list \<Rightarrow> app_state \<Rightarrow> app_state \<times> continuation list" where
  "play_requests [] st = (st, [])"
| "play_requests ((song, sourcePlaylist, paused) # rs) st =
     (let (st1, c1) = playSong song sourcePlaylist paused st;
          (st2, c2) = play_requests rs st1
      in (st2, c1 @ c2))"

text \<open>Promises settling one after the other, in the order of the list.\<close>

fun settle_all ::
  "(continuation \<times> settlement) list \<Rightarrow> app_state \<Rightarrow> app_state \<times> continuation list" where
  "settle_all [] st = (st, [])"
| "settle_all ((c, r) # cs) st =
     (let (st1, n1) = resume c r st;
          (st2, n2) = settle_all cs st1
      in (st2, n1 @ n2))"

text \<open>A waiting stream resolution of \<^verbatim>\<open>playAudioAndUpdateUI\<close> whose captured token is
  the value of the global counter.\<close>

definition is_current :: "app_state \<Rightarrow> continuation \<Rightarrow> bool" where
  "is_current st c =
     (case c of AwaitAudioStream song token \<Rightarrow> token = latestPlayRequestToken st | _ \<Rightarrow> False)"

text \<open>A stream resolution that yields a value: a URL, the empty string or \<^verbatim>\<open>null\<close>.\<close>

definition stream_value :: "settlement \<Rightarrow> bool" where
  "stream_value r = (case r of StreamSettled (Fulfilled v) \<Rightarrow> True | _ \<Rightarrow> False)"

text \<open>The token a continuation of \<^verbatim>\<open>playAudioAndUpdateUI\<close> has captured.\<close>

definition captured_token :: "continuation \<Rightarrow> nat" where
  "captured_token c =
     (case c of AwaitAudioStream song token \<Rightarrow> token | AwaitAudioPlay song token \<Rightarrow> token | _ \<Rightarrow> 0)"

definition is_stream_request :: "continuation \<Rightarrow> bool" where
  "is_stream_request c = (case c of AwaitAudioStream song token \<Rightarrow> True | _ \<Rightarrow> False)"

text \<open>The three statements of \<^verbatim>\<open>playAudioAndUpdateUI\<close> between the checks and
  \<^verbatim>\<open>await audioPlayer.play()\<close>, named for the proofs.\<close>

definition start_playback :: "string \<Rightarrow> app_state \<Rightarrow> app_state" where
  "start_playback url st = (clearPrefetchedUrl st)\<lparr>audioSrc := url, audioCalls := audioCalls st @ [Play]\<rparr>"

text \<open>Two requests made back to back on the fresh player, and the state they leave.\<close>

definition two_requests :: "(track option \<times> playlist option \<times> bool) list" where
  "two_requests =
     [(Some (demo_track ''S1S1S1S1S1S''), None, False),
      (Some (demo_track ''S2S2S2S2S2S''), None, False)]"

definition two_pending :: app_state where
  "two_pending =
     initial_state\<lparr>songQueue := [demo_track ''S1S1S1S1S1S'', demo_track ''S2S2S2S2S2S''],
                   currentSongIndex := 1, latestPlayRequestToken := 2,
                   isSongLoading := True, loadingOverlayShown := True, buffering := True\<rparr>"

definition prefetched_state :: app_state where
  "prefetched_state =
     (queue_state [demo_track ''AAAAAAAAAAA'', demo_track ''BBBBBBBBBBB''] 0 [])
       \<lparr>prefetchedUrl := Some ''https://prefetched/b'', prefetchedId := Some ''BBBBBBBBBBB'',
        audioSrc := ''https://resolved/a''\<rparr>"

text \<open>The first of two requests has had its stream resolved and awaits
  \<^verbatim>\<open>audioPlayer.play()\<close> when the second request is made.\<close>

definition second_requested_while_first_starts :: app_state where
  "second_requested_while_first_starts =
     fst (playSong (Some (demo_track ''S2S2S2S2S2S'')) None False
       (fst (resume (AwaitAudioStream (demo_track ''S1S1S1S1S1S'') 1)
              (StreamSettled (Fulfilled (Some ''https://one'')))
              (fst (playSong (Some (demo_track ''S1S1S1S1S1S'')) None False initial_state)))))"

section \<open>The validation of video ids\<close>

lemma id_class_alphabet: "id_class c \<longleftrightarrow> c \<in> spec_id_alphabet"
proof (cases c)
  case (Char b0 b1 b2 b3 b4 b5 b6 b7)
  then show ?thesis
    by (cases b0; cases b1; cases b2; cases b3; cases b4; cases b5; cases b6; cases b7;
        simp add: id_class_def spec_id_alphabet_def less_eq_char_def)
qed

lemma isValidVideoId_spec: "isValidVideoId v \<longleftrightarrow> spec_eleven_char_id v"
  by (cases v) (auto simp: isValidVideoId_def spec_eleven_char_id_def regex_id_test_def
      list_all_iff id_class_alphabet)

text \<open>
  C10. For every value \<open>videoId\<close> that is not an 11-character string over
  \<^verbatim>\<open>[a-zA-Z0-9_-]\<close>, \<^verbatim>\<open>getAudioStream\<close> and \<^verbatim>\<open>getVideoStream\<close> return a promise resolved
  with \<^verbatim>\<open>null\<close> and \<^verbatim>\<open>getUpNexts\<close> one resolved with the empty array; none of them is
  the promise of an \<^verbatim>\<open>ipcRenderer.invoke\<close>, so the main process is not called.
\<close>

theorem invalid_video_id_resolves_locally:
  "\<not> spec_eleven_char_id videoId \<Longrightarrow>
     getAudioStream videoId = PromiseResolve JNull \<and>
     getVideoStream videoId = PromiseResolve JNull \<and>
     getUpNexts videoId countryCode = PromiseResolve (JArray [])"
  by (simp add: getAudioStream_def getVideoStream_def getUpNexts_def isValidVideoId_spec)

theorem invalid_video_id_resolves_locally_witness:
  "\<not> spec_eleven_char_id (JStr ''dQw4w9WgXc!'') \<and>
   getAudioStream (JStr ''dQw4w9WgXc!'') = PromiseResolve JNull \<and>
   getVideoStream (JStr ''dQw4w9WgXc!'') = PromiseResolve JNull \<and>
   getUpNexts (JStr ''dQw4w9WgXc!'') (JStr ''US'') = PromiseResolve (JArray [])"
proof -
  have h: "\<not> spec_eleven_char_id (JStr ''dQw4w9WgXc!'')"
    by (simp add: spec_eleven_char_id_def spec_id_alphabet_def)
  show ?thesis
    using h invalid_video_id_resolves_locally [OF h, of "JStr ''US''"] by simp
qed

section \<open>The history of played ids\<close>

lemma filter_neq_remove1:
  "distinct h \<Longrightarrow> filter (\<lambda>i. i \<noteq> x) h = remove1 x h"
  by (induction h) (auto simp: filter_id_conv)

lemma addToHistory_history_ok:
  assumes "history_ok (playedHistory st)"
  shows "history_ok (playedHistory (addToHistory x st))"
proof (cases "x = []")
  case True
  with assms show ?thesis by (simp add: addToHistory_def)
next
  case False
  let ?f = "filter (\<lambda>i. i \<noteq> x) (playedHistory st)"
  have "length ?f \<le> length (playedHistory st)" by (rule length_filter_le)
  moreover have "length (playedHistory st) \<le> 50" using assms by (simp add: history_ok_def)
  ultimately have len: "length ?f \<le> 50" by (rule le_trans)
  have d: "distinct (x # ?f)" using assms by (simp add: history_ok_def)
  have n: "[] \<notin> set (x # ?f)" using assms False by (auto simp: history_ok_def)
  show ?thesis
  proof (cases "length (x # ?f) > 50")
    case True
    have "distinct (butlast (x # ?f))" using d by (rule distinct_butlast)
    moreover have "[] \<notin> set (butlast (x # ?f))" using n in_set_butlastD by metis
    moreover have "length (butlast (x # ?f)) \<le> 50" using len by simp
    ultimately show ?thesis using False True
      by (simp add: addToHistory_def history_ok_def Let_def)
  next
    case False
    with d n \<open>x \<noteq> []\<close> show ?thesis
      by (simp add: addToHistory_def history_ok_def Let_def)
  qed
qed

lemma fold_addToHistory_ok:
  "history_ok (playedHistory st) \<Longrightarrow> history_ok (playedHistory (fold addToHistory ids st))"
  by (induction ids arbitrary: st) (simp_all add: addToHistory_history_ok)

lemma reachable_history_ok:
  "history_ok (playedHistory (fold addToHistory ids initial_state))"
  by (rule fold_addToHistory_ok) (simp add: history_ok_def initial_state_def)

lemma length_remove1_Suc: "x \<in> set h \<Longrightarrow> Suc (length (remove1 x h)) = length h"
  by (induction h) auto

lemma addToHistory_present:
  assumes "history_ok (playedHistory st)" and "x \<in> set (playedHistory st)"
  shows "playedHistory (addToHistory x st) = x # remove1 x (playedHistory st) \<and>
         length (playedHistory (addToHistory x st)) = length (playedHistory st)"
proof -
  let ?h = "playedHistory st"
  from assms have nz: "x \<noteq> []" by (auto simp: history_ok_def)
  from assms have f: "filter (\<lambda>i. i \<noteq> x) ?h = remove1 x ?h"
    by (simp add: history_ok_def filter_neq_remove1)
  from assms have l: "Suc (length (remove1 x ?h)) = length ?h"
    by (simp add: length_remove1_Suc)
  from assms have le: "length ?h \<le> 50" by (simp add: history_ok_def)
  have small: "\<not> 50 < length (x # remove1 x ?h)" using l le by simp
  have "playedHistory (addToHistory x st) = x # remove1 x ?h"
    unfolding addToHistory_def Let_def f using nz small by simp
  then show ?thesis using l by simp
qed

lemma addToHistory_fresh_full:
  assumes "x \<noteq> []" and "x \<notin> set (playedHistory st)" and "length (playedHistory st) = 50"
  shows "playedHistory (addToHistory x st) = x # butlast (playedHistory st)"
proof -
  from assms have f: "filter (\<lambda>i. i \<noteq> x) (playedHistory st) = playedHistory st"
    by (auto simp: filter_id_conv)
  from assms have "playedHistory st \<noteq> []" by auto
  with assms f show ?thesis by (simp add: addToHistory_def Let_def)
qed

lemma fifty_hist: "playedHistory (fold addToHistory fifty_ids initial_state) = rev fifty_ids"
  by code_simp


text \<open>
  C5. Every history reached from the empty one by calls of \<^verbatim>\<open>addToHistory\<close> holds at
  most 50 ids and no id twice. Recording an id that is in it moves the id to the front
  and keeps the length. Recording a fresh id when 50 are held puts it in front and drops
  the last one. (A track id is a non-empty string: \<^verbatim>\<open>addToHistory\<close> returns at once on a
  falsy argument, and \<^verbatim>\<open>playAudioAndUpdateUI\<close>, its only caller, has returned before on a
  song without id.)
\<close>

theorem history_bounded_no_duplicates:
  "(let h = playedHistory (fold addToHistory ids initial_state) in
     length h \<le> 50 \<and> distinct h) \<and>
   (\<forall>x \<in> set (playedHistory (fold addToHistory ids initial_state)).
      playedHistory (addToHistory x (fold addToHistory ids initial_state)) =
        x # remove1 x (playedHistory (fold addToHistory ids initial_state)) \<and>
      length (playedHistory (addToHistory x (fold addToHistory ids initial_state))) =
        length (playedHistory (fold addToHistory ids initial_state))) \<and>
   (\<forall>x. x \<noteq> [] \<and> x \<notin> set (playedHistory (fold addToHistory ids initial_state)) \<and>
        length (playedHistory (fold addToHistory ids initial_state)) = 50 \<longrightarrow>
      playedHistory (addToHistory x (fold addToHistory ids initial_state)) =
        x # butlast (playedHistory (fold addToHistory ids initial_state)))"
proof (intro conjI ballI allI impI)
  show "let h = playedHistory (fold addToHistory ids initial_state) in
          length h \<le> 50 \<and> distinct h"
    using reachable_history_ok [of ids] by (simp add: Let_def history_ok_def)
next
  fix x assume "x \<in> set (playedHistory (fold addToHistory ids initial_state))"
  note p = addToHistory_present [OF reachable_history_ok this]
  from p [THEN conjunct1] p [THEN conjunct2]
  show "playedHistory (addToHistory x (fold addToHistory ids initial_state)) =
        x # remove1 x (playedHistory (fold addToHistory ids initial_state))"
    and "length (playedHistory (addToHistory x (fold addToHistory ids initial_state))) =
        length (playedHistory (fold addToHistory ids initial_state))"
    by this+
next
  fix x
  assume "x \<noteq> [] \<and> x \<notin> set (playedHistory (fold addToHistory ids initial_state)) \<and>
        length (playedHistory (fold addToHistory ids initial_state)) = 50"
  then show "playedHistory (addToHistory x (fold addToHistory ids initial_state)) =
        x # butlast (playedHistory (fold addToHistory ids initial_state))"
    by (simp add: addToHistory_fresh_full)
qed


theorem history_bounded_no_duplicates_witness:
  "length (playedHistory (fold addToHistory fifty_ids initial_state)) = 50 \<and>
   distinct (playedHistory (fold addToHistory fifty_ids initial_state)) \<and>
   playedHistory (addToHistory ''a'' (fold addToHistory fifty_ids initial_state)) =
     ''a'' # remove1 ''a'' (rev fifty_ids) \<and>
   playedHistory (addToHistory ''Z'' (fold addToHistory fifty_ids initial_state)) =
     ''Z'' # butlast (rev fifty_ids)"
  using history_bounded_no_duplicates [of fifty_ids]
  unfolding fifty_hist Let_def
  by (simp add: fifty_ids_def)


section \<open>The queue\<close>

subsection \<open>Array helpers\<close>

lemma findIndex_ge: "- 1 \<le> findIndex p xs"
  by (induction xs) (auto simp: Let_def)

lemma findIndex_lt: "findIndex p xs < int (length xs)"
  by (induction xs) (auto simp: Let_def)



lemma findIndex_cursor:
  "findIndex p xs = - 1 \<or> (0 \<le> findIndex p xs \<and> findIndex p xs < int (length xs))"
  using findIndex_ge [of p xs] findIndex_lt [of p xs] by linarith

lemma length_splice_insert [simp]: "length (splice_insert k x xs) = Suc (length xs)"
  by (simp add: splice_insert_def Let_def)

lemma splice_start_le: "splice_start k xs \<le> length xs"
  by (auto simp: splice_start_def)

lemma length_splice_remove:
  "0 \<le> k \<Longrightarrow> k < int (length xs) \<Longrightarrow> Suc (length (splice_remove k xs)) = length xs"
  by (auto simp: splice_remove_def splice_start_def Let_def)

lemma playAudio_queue:
  "songQueue (fst (playAudioAndUpdateUI song tok st)) = songQueue st"
  "currentSongIndex (fst (playAudioAndUpdateUI song tok st)) = currentSongIndex st"
  "upNextSongs (fst (playAudioAndUpdateUI song tok st)) = upNextSongs st"
  by (auto simp: playAudioAndUpdateUI_def split: option.splits)

lemma playAudio_cursor_ok [simp]:
  "cursor_ok (fst (playAudioAndUpdateUI song tok st)) = cursor_ok st"
  by (simp add: cursor_ok_def playAudio_queue)

lemma setSongForPlayback_cursor_ok:
  "cursor_ok st \<Longrightarrow> cursor_ok (setSongForPlayback song pl st)"
  using findIndex_cursor [of "\<lambda>s. song_id s = song_id song"]
  by (auto simp: setSongForPlayback_def cursor_ok_def Let_def split: option.splits)

lemma playSong_cursor_ok:
  assumes "cursor_ok st"
  shows "cursor_ok (fst (playSong song pl paused st))"
proof -
  have 1: "cursor_ok (st\<lparr>audioCalls := audioCalls st @ [Play]\<rparr>)"
    using assms by (simp add: cursor_ok_def)
  have "cursor_ok (st\<lparr>latestPlayRequestToken := latestPlayRequestToken st + 1\<rparr>)"
    using assms by (simp add: cursor_ok_def)
  then have 2: "cursor_ok (setSongForPlayback s pl
      (st\<lparr>latestPlayRequestToken := latestPlayRequestToken st + 1\<rparr>))" for s
    by (rule setSongForPlayback_cursor_ok)
  show ?thesis
    unfolding playSong_def Let_def using assms 1 2
    by (simp split: option.splits)
qed

lemma addSongToQueue_cursor_ok:
  "cursor_ok st \<Longrightarrow> cursor_ok (fst (addSongToQueue song st))"
proof -
  assume a: "cursor_ok st"
  let ?st1 = "showNotification ''Added to queue'' ''info'' (st\<lparr>songQueue := songQueue st @ [song]\<rparr>)"
  from a have "cursor_ok ?st1" by (auto simp: cursor_ok_def showNotification_def)
  then show ?thesis
    by (simp add: addSongToQueue_def Let_def playSong_cursor_ok)
qed

lemma addSongToPlayNext_cursor_ok:
  "cursor_ok st \<Longrightarrow> cursor_ok (addSongToPlayNext song st)"
  by (auto simp: addSongToPlayNext_def cursor_ok_def showNotification_def)

lemma playNextOrUpNext_cursor_ok:
  "cursor_ok st \<Longrightarrow> cursor_ok (fst (playNextOrUpNext st))"
  by (auto simp: playNextOrUpNext_def Let_def cursor_ok_def playAudio_queue split: list.splits)

lemma previous_cursor_ok:
  "cursor_ok st \<Longrightarrow> cursor_ok (fst (previous after3s st))"
  by (auto simp: previous_def Let_def cursor_ok_def playAudio_queue)

lemma removeItem_cursor_ok:
  assumes "cursor_ok st"
  shows "cursor_ok (fst (removeItem index st))"
proof (cases "index < 0 \<or> index \<ge> int (length (songQueue st))")
  case True
  with assms show ?thesis by (simp add: removeItem_def)
next
  case False
  then have l: "Suc (length (splice_remove index (songQueue st))) = length (songQueue st)"
    by (simp add: length_splice_remove)
  let ?st1 = "st\<lparr>songQueue := splice_remove index (songQueue st)\<rparr>"
  show ?thesis
  proof (cases "index = currentSongIndex st")
    case True
    with False l have "cursor_ok (?st1\<lparr>currentSongIndex := currentSongIndex ?st1 - 1\<rparr>)"
      by (auto simp: cursor_ok_def)
    then have "cursor_ok (fst (playNextOrUpNext (?st1\<lparr>currentSongIndex := currentSongIndex ?st1 - 1\<rparr>)))"
      by (rule playNextOrUpNext_cursor_ok)
    with False True show ?thesis by (simp add: removeItem_def Let_def)
  next
    case ne: False
    with False l assms show ?thesis
      by (auto simp: removeItem_def Let_def cursor_ok_def)
  qed
qed

lemma playFromUpNext_cursor_ok:
  "cursor_ok st \<Longrightarrow> cursor_ok (fst (playFromUpNext index st))"
  by (auto simp: playFromUpNext_def Let_def cursor_ok_def playAudio_queue split: option.splits)

lemma reorderItem_cursor_ok:
  assumes "cursor_ok st" and "reorderItem oldIndex newIndex st = Inr st'"
  shows "cursor_ok st'"
proof (cases "oldIndex = newIndex")
  case True
  with assms show ?thesis by (simp add: reorderItem_def)
next
  case False
  from assms(2) False obtain m where m: "splice_removed oldIndex (songQueue st) = Some m"
    by (auto simp: reorderItem_def Let_def split: option.splits)
  then have k: "splice_start oldIndex (songQueue st) < length (songQueue st)"
    by (auto simp: splice_removed_def Let_def split: if_splits)
  then have len: "length (splice_insert newIndex m (splice_remove oldIndex (songQueue st)))
      = length (songQueue st)"
    by (auto simp: splice_remove_def Let_def)
  let ?q = "splice_insert newIndex m (splice_remove oldIndex (songQueue st))"
  show ?thesis
  proof (cases "(case getCurrentItem st of None \<Rightarrow> [] | Some c \<Rightarrow> song_id c) = []")
    case True
    with assms False m have "st' = st\<lparr>songQueue := ?q\<rparr>"
      by (auto simp: reorderItem_def Let_def)
    with assms(1) len show ?thesis by (simp add: cursor_ok_def)
  next
    case ne: False
    with assms False m obtain p where "st' = st\<lparr>songQueue := ?q, currentSongIndex := findIndex p ?q\<rparr>"
      by (auto simp: reorderItem_def Let_def)
    then show ?thesis using findIndex_cursor [of p ?q] by (simp add: cursor_ok_def)
  qed
qed



lemma resume_queue:
  "songQueue (fst (resume c r st)) = songQueue st \<and>
   currentSongIndex (fst (resume c r st)) = currentSongIndex st"
  by (cases "(c, r, st)" rule: resume.cases)
     (auto simp: resume_stream_def resume_play_def resume_prefetch_def resume_upnexts_def
       finally_block_def catch_block_def showNotification_def clearPrefetchedUrl_def
       addToHistory_def prefetchNext_def fetchUpNext_def Let_def
       split: settled.splits option.splits prod.splits upnexts_value.splits)

text \<open>
  C4. Every queue operation keeps the cursor at -1 or at an index into the sequence:
  \<^verbatim>\<open>setSongForPlayback\<close> (alone and through \<^verbatim>\<open>playSong\<close>), \<^verbatim>\<open>addSongToQueue\<close>,
  \<^verbatim>\<open>addSongToPlayNext\<close>, \<^verbatim>\<open>playNextOrUpNext\<close>, \<^verbatim>\<open>previous\<close>, \<^verbatim>\<open>removeItem\<close>,
  \<^verbatim>\<open>reorderItem\<close> and \<^verbatim>\<open>playFromUpNext\<close>; so does the rest of every asynchronous function.
  \<^verbatim>\<open>reorderItem\<close> has a result whenever \<open>oldIndex\<close> is the position of a queue item.
\<close>

theorem queue_operations_keep_cursor_valid:
  "cursor_ok st \<Longrightarrow>
     cursor_ok (setSongForPlayback song sourcePlaylist st) \<and>
     cursor_ok (fst (playSong (Some song) sourcePlaylist paused st)) \<and>
     cursor_ok (fst (addSongToQueue song st)) \<and>
     cursor_ok (addSongToPlayNext song st) \<and>
     cursor_ok (fst (playNextOrUpNext st)) \<and>
     cursor_ok (fst (previous after3s st)) \<and>
     cursor_ok (fst (removeItem index st)) \<and>
     (case reorderItem oldIndex newIndex st of
        Inr st' \<Rightarrow> cursor_ok st'
      | Inl e \<Rightarrow> \<not> (0 \<le> oldIndex \<and> oldIndex < int (length (songQueue st)))) \<and>
     cursor_ok (fst (playFromUpNext index st)) \<and>
     cursor_ok (fst (resume c r st))"
proof -
  assume a: "cursor_ok st"
  have reorder: "case reorderItem oldIndex newIndex st of
        Inr st' \<Rightarrow> cursor_ok st'
      | Inl e \<Rightarrow> \<not> (0 \<le> oldIndex \<and> oldIndex < int (length (songQueue st)))"
  proof (cases "reorderItem oldIndex newIndex st")
    case (Inr st')
    with a reorderItem_cursor_ok show ?thesis by simp
  next
    case (Inl e)
    then have "splice_removed oldIndex (songQueue st) = None"
      by (auto simp: reorderItem_def Let_def split: if_splits option.splits)
    then have "\<not> (0 \<le> oldIndex \<and> oldIndex < int (length (songQueue st)))"
      by (auto simp: splice_removed_def splice_start_def Let_def split: if_splits)
    with Inl show ?thesis by simp
  qed
  have res: "cursor_ok (fst (resume c r st))"
    using a resume_queue [of c r st] by (simp add: cursor_ok_def)
  from a reorder res show ?thesis
    by (simp add: setSongForPlayback_cursor_ok playSong_cursor_ok addSongToQueue_cursor_ok
        addSongToPlayNext_cursor_ok playNextOrUpNext_cursor_ok previous_cursor_ok
        removeItem_cursor_ok playFromUpNext_cursor_ok)
qed

theorem queue_operations_keep_cursor_valid_witness:
  "cursor_ok (queue_state [demo_track ''AAAAAAAAAAA'', demo_track ''BBBBBBBBBBB''] 1 []) \<and>
   cursor_ok (fst (removeItem 1
      (queue_state [demo_track ''AAAAAAAAAAA'', demo_track ''BBBBBBBBBBB''] 1 []))) \<and>
   cursor_ok (fst (playNextOrUpNext
      (queue_state [demo_track ''AAAAAAAAAAA'', demo_track ''BBBBBBBBBBB''] 1 [])))"
proof -
  have h: "cursor_ok (queue_state [demo_track ''AAAAAAAAAAA'', demo_track ''BBBBBBBBBBB''] 1 [])"
    by (simp add: cursor_ok_def queue_state_def)
  show ?thesis
    using h queue_operations_keep_cursor_valid [OF h, of _ _ _ _ 1]
    by simp
qed

subsection \<open>Removing the current track\<close>

lemma playAudio_audioCalls:
  "audioCalls (fst (playAudioAndUpdateUI song tok st)) = audioCalls st"
  by (auto simp: playAudioAndUpdateUI_def split: option.splits)

lemma playNext_advance:
  assumes "currentSongIndex s < int (length (songQueue s)) - 1"
  shows "songQueue (fst (playNextOrUpNext s)) = songQueue s"
    and "currentSongIndex (fst (playNextOrUpNext s)) = currentSongIndex s + 1"
    and "upNextSongs (fst (playNextOrUpNext s)) = upNextSongs s"
  using assms by (simp_all add: playNextOrUpNext_def Let_def playAudio_queue)

lemma playNext_from_buffer:
  assumes "\<not> currentSongIndex s < int (length (songQueue s)) - 1"
      and "upNextSongs s = r # rest"
  shows "songQueue (fst (playNextOrUpNext s)) = songQueue s @ [r]"
    and "currentSongIndex (fst (playNextOrUpNext s)) = currentSongIndex s + 1"
    and "upNextSongs (fst (playNextOrUpNext s)) = rest"
  using assms by (simp_all add: playNextOrUpNext_def Let_def playAudio_queue)

lemma playNext_stop:
  assumes "\<not> currentSongIndex s < int (length (songQueue s)) - 1"
      and "upNextSongs s = []"
  shows "songQueue (fst (playNextOrUpNext s)) = songQueue s"
    and "currentSongIndex (fst (playNextOrUpNext s)) = currentSongIndex s"
    and "upNextSongs (fst (playNextOrUpNext s)) = []"
    and "audioCalls (fst (playNextOrUpNext s)) = audioCalls s @ [Pause]"
  using assms by (simp_all add: playNextOrUpNext_def Let_def)


text \<open>
  C6, as the code has it. On a queue of more than one track with the cursor at a valid
  index, \<^verbatim>\<open>removeItem(cursor)\<close> leaves the cursor at a valid index of the resulting queue.
  The track there is the next one in sequence when there was one; otherwise the first
  track of the recommendation buffer, moved to the end of the queue, when the buffer is
  not empty; otherwise the track before the removed one, with the audio paused.
\<close>

theorem remove_current_leaves_valid_cursor:
  assumes "1 < length (songQueue st)"
      and "0 \<le> currentSongIndex st" and "currentSongIndex st < int (length (songQueue st))"
  shows "let st' = fst (removeItem (currentSongIndex st) st);
             q = songQueue st; i = nat (currentSongIndex st) in
    0 \<le> currentSongIndex st' \<and> currentSongIndex st' < int (length (songQueue st')) \<and>
    (if Suc i < length q then
       songQueue st' = take i q @ drop (Suc i) q \<and> currentSongIndex st' = int i \<and>
       getCurrentItem st' = Some (q ! Suc i) \<and> upNextSongs st' = upNextSongs st
     else
       (case upNextSongs st of
          r # rest \<Rightarrow>
            songQueue st' = butlast q @ [r] \<and> currentSongIndex st' = int i \<and>
            getCurrentItem st' = Some r \<and> upNextSongs st' = rest
        | [] \<Rightarrow>
            songQueue st' = butlast q \<and> currentSongIndex st' = int i - 1 \<and>
            getCurrentItem st' = Some (q ! (i - 1)) \<and> upNextSongs st' = [] \<and>
            audioCalls st' = audioCalls st @ [Pause]))"
proof -
  define q where "q = songQueue st"
  define i where "i = nat (currentSongIndex st)"
  define r where "r = take i q @ drop (Suc i) q"
  define s where "s = st\<lparr>songQueue := r, currentSongIndex := int i - 1\<rparr>"
  from assms have i: "currentSongIndex st = int i" "i < length q" "1 < length q"
    by (auto simp: i_def q_def)
  have rm: "splice_remove (currentSongIndex st) (songQueue st) = r"
    using i by (simp add: splice_remove_def splice_start_def Let_def r_def q_def)
  have len: "int (length r) = int (length q) - 1"
    using i by (simp add: r_def)
  have step: "removeItem (currentSongIndex st) st = playNextOrUpNext s"
    using assms rm i(1) by (simp add: removeItem_def Let_def s_def)
  have s: "songQueue s = r" "currentSongIndex s = int i - 1" "upNextSongs s = upNextSongs st"
    "audioCalls s = audioCalls st"
    by (simp_all add: s_def)
  show ?thesis
  proof (cases "Suc i < length q")
    case True
    then have nth: "r ! i = q ! Suc i"
      by (simp add: r_def nth_append)
    from True len have adv: "currentSongIndex s < int (length (songQueue s)) - 1"
      by (simp add: s)
    from True len i show ?thesis
      unfolding Let_def step q_def [symmetric] i_def [symmetric] r_def [symmetric]
      by (simp add: playNext_advance [OF adv] s getCurrentItem_def js_index_def nth)
  next
    case False
    with i have last: "Suc i = length q" by linarith
    then have "i = length q - 1" by simp
    with last have bl: "r = butlast q"
      by (simp add: r_def butlast_conv_take)
    from i last have pos: "0 < i" by linarith
    from last len have noadv: "\<not> currentSongIndex s < int (length (songQueue s)) - 1"
      by (simp add: s)
    show ?thesis
    proof (cases "upNextSongs st")
      case Nil
      then have e: "upNextSongs s = []" by (simp add: s)
      have "butlast q ! (i - 1) = q ! (i - 1)"
        using last pos by (simp add: nth_butlast)
      with False Nil last pos len show ?thesis
        unfolding Let_def step q_def [symmetric] i_def [symmetric]
        by (simp add: playNext_stop [OF noadv e] s getCurrentItem_def js_index_def bl
            nat_diff_distrib)
    next
      case (Cons x rest)
      then have e: "upNextSongs s = x # rest" by (simp add: s)
      from False Cons last pos len show ?thesis
        unfolding Let_def step q_def [symmetric] i_def [symmetric]
        by (simp add: playNext_from_buffer [OF noadv e] s getCurrentItem_def js_index_def bl
            nth_append)
    qed
  qed
qed

theorem remove_current_leaves_valid_cursor_witness:
  "1 < length (songQueue (queue_state
       [demo_track ''AAAAAAAAAAA'', demo_track ''BBBBBBBBBBB'', demo_track ''CCCCCCCCCCC''] 1 [])) \<and>
   getCurrentItem (fst (removeItem 1 (queue_state
       [demo_track ''AAAAAAAAAAA'', demo_track ''BBBBBBBBBBB'', demo_track ''CCCCCCCCCCC''] 1 [])))
     = Some (demo_track ''CCCCCCCCCCC'') \<and>
   currentSongIndex (fst (removeItem 1 (queue_state
       [demo_track ''AAAAAAAAAAA'', demo_track ''BBBBBBBBBBB'', demo_track ''CCCCCCCCCCC''] 1 [])))
     = 1"
  using remove_current_leaves_valid_cursor [of "queue_state
       [demo_track ''AAAAAAAAAAA'', demo_track ''BBBBBBBBBBB'', demo_track ''CCCCCCCCCCC''] 1 []"]
  by (simp add: queue_state_def Let_def)

text \<open>
  The claim as written names two outcomes only. With the last track current and the
  buffer empty there is no next track and no recommendation, and the cursor goes to the
  track before.
\<close>

theorem remove_last_current_selects_previous:
  "js_index [demo_track ''AAAAAAAAAAA'', demo_track ''BBBBBBBBBBB''] (1 + 1) = None \<and>
   upNextSongs (queue_state [demo_track ''AAAAAAAAAAA'', demo_track ''BBBBBBBBBBB''] 1 []) = [] \<and>
   songQueue (fst (removeItem 1
      (queue_state [demo_track ''AAAAAAAAAAA'', demo_track ''BBBBBBBBBBB''] 1 [])))
     = [demo_track ''AAAAAAAAAAA''] \<and>
   currentSongIndex (fst (removeItem 1
      (queue_state [demo_track ''AAAAAAAAAAA'', demo_track ''BBBBBBBBBBB''] 1 []))) = 0 \<and>
   getCurrentItem (fst (removeItem 1
      (queue_state [demo_track ''AAAAAAAAAAA'', demo_track ''BBBBBBBBBBB''] 1 [])))
     = Some (demo_track ''AAAAAAAAAAA'')"
  by (simp add: queue_state_def initial_state_def removeItem_def playNextOrUpNext_def
      splice_remove_def splice_start_def getCurrentItem_def js_index_def Let_def)

subsection \<open>Reordering\<close>








subsection \<open>A collection that does not hold the requested track\<close>

text \<open>
  C3 at a concrete input. \<^verbatim>\<open>setSongForPlayback\<close> with a collection replaces the queue by
  the collection's tracks, but when the requested track is not among them it sets the
  cursor to the -1 that \<^verbatim>\<open>findIndex\<close> returns: the track is not appended, nothing is
  selected, and \<^verbatim>\<open>playSong\<close> starts no resolution. The branch without a collection does
  insert and select a track it does not find (last two lines).
\<close>

theorem playlist_without_track_selects_nothing:
  "songQueue (setSongForPlayback (demo_track ''XXXXXXXXXXX'')
      (Some \<lparr>pl_tracks = Some [demo_track ''AAAAAAAAAAA'', demo_track ''BBBBBBBBBBB''],
             pl_songs = None\<rparr>) initial_state)
     = [demo_track ''AAAAAAAAAAA'', demo_track ''BBBBBBBBBBB''] \<and>
   currentSongIndex (setSongForPlayback (demo_track ''XXXXXXXXXXX'')
      (Some \<lparr>pl_tracks = Some [demo_track ''AAAAAAAAAAA'', demo_track ''BBBBBBBBBBB''],
             pl_songs = None\<rparr>) initial_state) = - 1 \<and>
   getCurrentItem (setSongForPlayback (demo_track ''XXXXXXXXXXX'')
      (Some \<lparr>pl_tracks = Some [demo_track ''AAAAAAAAAAA'', demo_track ''BBBBBBBBBBB''],
             pl_songs = None\<rparr>) initial_state) = None \<and>
   snd (playSong (Some (demo_track ''XXXXXXXXXXX''))
      (Some \<lparr>pl_tracks = Some [demo_track ''AAAAAAAAAAA'', demo_track ''BBBBBBBBBBB''],
             pl_songs = None\<rparr>) False initial_state) = [] \<and>
   currentSongIndex (setSongForPlayback (demo_track ''XXXXXXXXXXX'') None
      (queue_state [demo_track ''AAAAAAAAAAA'', demo_track ''BBBBBBBBBBB''] 0 [])) = 1 \<and>
   songQueue (setSongForPlayback (demo_track ''XXXXXXXXXXX'') None
      (queue_state [demo_track ''AAAAAAAAAAA'', demo_track ''BBBBBBBBBBB''] 0 []))
     = [demo_track ''AAAAAAAAAAA'', demo_track ''XXXXXXXXXXX'', demo_track ''BBBBBBBBBBB'']"
  by (simp add: setSongForPlayback_def playSong_def playAudioAndUpdateUI_def getCurrentItem_def
      js_index_def demo_track_def initial_state_def queue_state_def splice_insert_def
      splice_start_def Let_def)

section \<open>The recommendation buffer\<close>

lemma isArray_normalize [simp]: "isArray (normalize_artists a)"
  by (cases a) (simp_all add: isArray_def normalize_artists_def)


text \<open>
  C8. When \<^verbatim>\<open>getUpNexts\<close> fulfils, every track that \<^verbatim>\<open>fetchUpNext\<close> puts into the buffer
  has an id that is neither in the history nor among the ids of the queue, both read as
  the filter runs, and its \<^verbatim>\<open>artists\<close> field is an array. When \<^verbatim>\<open>getUpNexts\<close> rejects,
  the buffer becomes empty.
\<close>

theorem up_next_buffer_filtered_and_normalized:
  "(\<forall>t \<in> set (upNextSongs (fst (resume (AwaitUpNexts currentSong) (UpNextsSettled (Fulfilled upNexts)) st))).
      song_id t \<notin> set (playedHistory st) \<and>
      song_id t \<notin> set (map song_id (songQueue st)) \<and>
      isArray (song_artists t)) \<and>
   upNextSongs (fst (resume (AwaitUpNexts currentSong) (UpNextsSettled (Rejected e)) st)) = []"
  by (auto simp: resume_upnexts_def Let_def split: upnexts_value.splits option.splits)

theorem up_next_buffer_filtered_and_normalized_witness:
  "upNextSongs (fst (resume (AwaitUpNexts (demo_track ''AAAAAAAAAAA''))
      (UpNextsSettled (Fulfilled (SongArray
         [Some (demo_track ''AAAAAAAAAAA''), None,
          Some ((demo_track ''DDDDDDDDDDD'')\<lparr>song_artists := ArtistsName ''Dora''\<rparr>),
          Some (demo_track ''HHHHHHHHHHH'')])))
      ((queue_state [demo_track ''AAAAAAAAAAA''] 0 [])\<lparr>playedHistory := [''HHHHHHHHHHH'']\<rparr>)))
     = [(demo_track ''DDDDDDDDDDD'')\<lparr>song_artists := ArtistsArray [Some ''Dora'']\<rparr>] \<and>
   isArray (ArtistsArray [Some ''Dora''])"
proof -
  have e: "upNextSongs (fst (resume (AwaitUpNexts (demo_track ''AAAAAAAAAAA''))
      (UpNextsSettled (Fulfilled (SongArray
         [Some (demo_track ''AAAAAAAAAAA''), None,
          Some ((demo_track ''DDDDDDDDDDD'')\<lparr>song_artists := ArtistsName ''Dora''\<rparr>),
          Some (demo_track ''HHHHHHHHHHH'')])))
      ((queue_state [demo_track ''AAAAAAAAAAA''] 0 [])\<lparr>playedHistory := [''HHHHHHHHHHH'']\<rparr>)))
     = [(demo_track ''DDDDDDDDDDD'')\<lparr>song_artists := ArtistsArray [Some ''Dora'']\<rparr>]"
    by (simp add: resume_upnexts_def queue_state_def demo_track_def normalize_artists_def Let_def)
  show ?thesis
    using up_next_buffer_filtered_and_normalized [of "demo_track ''AAAAAAAAAAA''"
      "SongArray
         [Some (demo_track ''AAAAAAAAAAA''), None,
          Some ((demo_track ''DDDDDDDDDDD'')\<lparr>song_artists := ArtistsName ''Dora''\<rparr>),
          Some (demo_track ''HHHHHHHHHHH'')]"
      "(queue_state [demo_track ''AAAAAAAAAAA''] 0 [])\<lparr>playedHistory := [''HHHHHHHHHHH'']\<rparr>"]
    unfolding e by simp
qed


section \<open>The play-request coordinator\<close>

subsection \<open>Stale completions\<close>

lemma finally_catch: "finally_block (catch_block m st) = catch_block m (finally_block st)"
  by (simp add: finally_block_def catch_block_def showNotification_def)

lemma finally_idem [simp]: "finally_block (finally_block st) = finally_block st"
  by (simp add: finally_block_def)

lemma finally_token [simp]: "latestPlayRequestToken (finally_block st) = latestPlayRequestToken st"
  by (simp add: finally_block_def)

lemma catch_token [simp]: "latestPlayRequestToken (catch_block m st) = latestPlayRequestToken st"
  by (simp add: catch_block_def showNotification_def)

lemma finally_eq_token:
  "finally_block a = finally_block b \<Longrightarrow> latestPlayRequestToken a = latestPlayRequestToken b"
  by (metis finally_token)

lemma catch_stale [simp]: "catch_block ''Stale request'' st = st"
  by (simp add: catch_block_def)

lemma stale_stream_discarded:
  "token \<noteq> latestPlayRequestToken st \<Longrightarrow>
   resume (AwaitAudioStream song token) (StreamSettled (Fulfilled v)) st = (finally_block st, [])"
  by (simp add: resume_stream_def)

lemma finally_start: "finally_block (start_playback u st) = start_playback u (finally_block st)"
  by (simp add: finally_block_def start_playback_def clearPrefetchedUrl_def)

lemma resume_stream_cong:
  assumes "finally_block a = finally_block b"
  shows "finally_block (fst (resume_stream song token (Fulfilled v) a)) =
         finally_block (fst (resume_stream song token (Fulfilled v) b)) \<and>
         snd (resume_stream song token (Fulfilled v) a) = snd (resume_stream song token (Fulfilled v) b) \<and>
         latestPlayRequestToken (fst (resume_stream song token (Fulfilled v) b)) = latestPlayRequestToken b"
proof -
  from assms have t: "latestPlayRequestToken a = latestPlayRequestToken b" by (rule finally_eq_token)
  have s: "finally_block (start_playback u a) = finally_block (start_playback u b)" for u
    using assms by (simp add: finally_start)
  have c: "finally_block (catch_block m a) = finally_block (catch_block m b)" for m
    using assms by (simp add: finally_catch)
  have st: "latestPlayRequestToken (start_playback u b) = latestPlayRequestToken b" for u
    by (simp add: start_playback_def clearPrefetchedUrl_def)
  show ?thesis
    using t s c assms st
    by (simp add: resume_stream_def start_playback_def [symmetric])
qed

lemma settle_all_Cons:
  "fst (settle_all ((c, r) # cs) st) = fst (settle_all cs (fst (resume c r st)))"
  "snd (settle_all ((c, r) # cs) st) =
     snd (resume c r st) @ snd (settle_all cs (fst (resume c r st)))"
  by (simp_all add: split_beta Let_def)

lemma is_current_cong:
  "latestPlayRequestToken a = latestPlayRequestToken b \<Longrightarrow> is_current a c = is_current b c"
  by (cases c) (simp_all add: is_current_def)

lemma settle_all_skips_stale:
  assumes "\<forall>(c, r) \<in> set cs. is_stream_request c \<and> stream_value r"
      and "finally_block a = finally_block b"
  shows "finally_block (fst (settle_all cs a)) =
           finally_block (fst (settle_all (filter (\<lambda>(c, r). is_current b c) cs) b)) \<and>
         snd (settle_all cs a) = snd (settle_all (filter (\<lambda>(c, r). is_current b c) cs) b)"
  using assms
proof (induction cs arbitrary: a b)
  case Nil
  then show ?case by simp
next
  case (Cons x cs)
  obtain c r where x: "x = (c, r)" by (cases x)
  from Cons.prems(1) x obtain song token v
    where c: "c = AwaitAudioStream song token" and r: "r = StreamSettled (Fulfilled v)"
    by (auto simp: is_stream_request_def stream_value_def
        split: continuation.splits settlement.splits settled.splits)
  from Cons.prems(1) have rest: "\<forall>(c, r) \<in> set cs. is_stream_request c \<and> stream_value r"
    by simp
  from Cons.prems(2) have t: "latestPlayRequestToken a = latestPlayRequestToken b"
    by (rule finally_eq_token)
  let ?P = "\<lambda>b. (\<lambda>(c, r). is_current b c)"
  show ?case
  proof (cases "token = latestPlayRequestToken b")
    case True
    then have cur: "is_current b c" by (simp add: c is_current_def)
    note cong = resume_stream_cong [OF Cons.prems(2), of song token v]
    let ?a' = "fst (resume c r a)"
    let ?b' = "fst (resume c r b)"
    from cong have ab: "finally_block ?a' = finally_block ?b'" by (simp add: c r)
    from cong have n: "snd (resume c r a) = snd (resume c r b)" by (simp add: c r)
    from cong have tb: "latestPlayRequestToken ?b' = latestPlayRequestToken b" by (simp add: c r)
    have "?P ?b' = ?P b"
      using is_current_cong [OF tb] by (simp add: fun_eq_iff)
    then have f: "filter (?P ?b') cs = filter (?P b) cs" by (rule arg_cong)
    have fc: "filter (?P b) ((c, r) # cs) = (c, r) # filter (?P b) cs"
      using cur by simp
    from Cons.IH [OF rest ab] show ?thesis
      unfolding x fc settle_all_Cons f n by simp
  next
    case False
    then have ncur: "\<not> is_current b c" by (simp add: c is_current_def)
    from False t have "token \<noteq> latestPlayRequestToken a" by simp
    then have d: "resume c r a = (finally_block a, [])"
      unfolding c r by (rule stale_stream_discarded)
    have e: "finally_block (finally_block a) = finally_block b"
      using Cons.prems(2) by simp
    have fc: "filter (?P b) ((c, r) # cs) = filter (?P b) cs"
      using ncur by simp
    from Cons.IH [OF rest e] show ?thesis
      unfolding x fc settle_all_Cons d by simp
  qed
qed

lemma setSongForPlayback_token [simp]:
  "latestPlayRequestToken (setSongForPlayback s pl st) = latestPlayRequestToken st"
  by (simp add: setSongForPlayback_def Let_def split: option.splits)

lemma playSong_shape:
  "(snd (playSong song pl paused st) = [] \<and>
      latestPlayRequestToken st \<le> latestPlayRequestToken (fst (playSong song pl paused st))) \<or>
   (\<exists>s. snd (playSong song pl paused st) =
          [AwaitAudioStream s (latestPlayRequestToken (fst (playSong song pl paused st)))] \<and>
        latestPlayRequestToken (fst (playSong song pl paused st)) = Suc (latestPlayRequestToken st))"
  by (auto simp: playSong_def playAudioAndUpdateUI_def Let_def split: option.splits)


lemma play_requests_Cons:
  "fst (play_requests ((song, pl, paused) # rs) st) =
     fst (play_requests rs (fst (playSong song pl paused st)))"
  "snd (play_requests ((song, pl, paused) # rs) st) =
     snd (playSong song pl paused st) @ snd (play_requests rs (fst (playSong song pl paused st)))"
  by (simp_all add: split_beta Let_def)

lemma play_requests_tokens:
  "latestPlayRequestToken st0 \<le> latestPlayRequestToken (fst (play_requests reqs st0)) \<and>
   (\<forall>c \<in> set (snd (play_requests reqs st0)).
      is_stream_request c \<and> latestPlayRequestToken st0 < captured_token c \<and>
      captured_token c \<le> latestPlayRequestToken (fst (play_requests reqs st0))) \<and>
   sorted_wrt (<) (map captured_token (snd (play_requests reqs st0)))"
proof (induction reqs arbitrary: st0)
  case Nil
  then show ?case by simp
next
  case (Cons x rs)
  obtain song pl paused where x: "x = (song, pl, paused)" by (cases x)
  let ?st' = "fst (playSong song pl paused st0)"
  let ?c1 = "snd (playSong song pl paused st0)"
  note ih = Cons.IH [of ?st']
  from playSong_shape [of song pl paused st0]
  consider (none) "?c1 = []" "latestPlayRequestToken st0 \<le> latestPlayRequestToken ?st'"
    | (one) s where "?c1 = [AwaitAudioStream s (latestPlayRequestToken ?st')]"
        "latestPlayRequestToken ?st' = Suc (latestPlayRequestToken st0)"
    by blast
  then show ?case
  proof cases
    case none
    with ih show ?thesis
      unfolding x play_requests_Cons by fastforce
  next
    case one
    with ih show ?thesis
      unfolding x play_requests_Cons
      by (fastforce simp: sorted_wrt_append is_stream_request_def captured_token_def)
  qed
qed

lemma play_requests_last:
  "length (snd (play_requests reqs st0)) \<le> length reqs \<and>
   (reqs \<noteq> [] \<and> length (snd (play_requests reqs st0)) = length reqs \<longrightarrow>
      snd (play_requests reqs st0) \<noteq> [] \<and>
      is_current (fst (play_requests reqs st0)) (last (snd (play_requests reqs st0))))"
proof (induction reqs arbitrary: st0)
  case Nil
  then show ?case by simp
next
  case (Cons x rs)
  obtain song pl paused where x: "x = (song, pl, paused)" by (cases x)
  let ?st' = "fst (playSong song pl paused st0)"
  let ?c1 = "snd (playSong song pl paused st0)"
  note ih = Cons.IH [of ?st']
  from playSong_shape [of song pl paused st0]
  consider (none) "?c1 = []"
    | (one) s where "?c1 = [AwaitAudioStream s (latestPlayRequestToken ?st')]"
    by blast
  then show ?case
  proof cases
    case none
    with ih show ?thesis
      unfolding x play_requests_Cons by simp
  next
    case one
    show ?thesis
    proof (cases "rs = []")
      case True
      with one show ?thesis
        unfolding x play_requests_Cons by (simp add: is_current_def)
    next
      case False
      with one ih show ?thesis
        unfolding x play_requests_Cons by auto
    qed
  qed
qed

lemma filter_key_at_most_one:
  "distinct (map f xs) \<Longrightarrow> length (filter (\<lambda>x. f x = k) xs) \<le> Suc 0"
proof (induction xs)
  case Nil
  then show ?case by simp
next
  case (Cons x xs)
  show ?case
  proof (cases "f x = k")
    case True
    with Cons.prems have "\<forall>y \<in> set xs. f y \<noteq> k" by (auto simp: image_iff)
    then have "filter (\<lambda>x. f x = k) xs = []" by (simp add: filter_empty_conv)
    with True show ?thesis by simp
  next
    case False
    with Cons show ?thesis by simp
  qed
qed

lemma is_current_token:
  "is_stream_request c \<Longrightarrow> is_current st c \<longleftrightarrow> captured_token c = latestPlayRequestToken st"
  by (cases c) (simp_all add: is_current_def is_stream_request_def captured_token_def)

text \<open>
  What the token does guard. Let any sequence of \<^verbatim>\<open>playSong\<close> requests be made with
  nothing settling in between, and let the stream resolutions they opened complete in
  any order, each with a value (a URL, the empty string or \<^verbatim>\<open>null\<close>). Then, up to the
  three loading indicators, the state and the continuations left waiting are those of
  completing only the resolutions whose captured token is the final value of the
  counter; there is at most one of them, and it can only be the last one opened. A
  resolution that completes with a value while its token differs from the counter
  changes the loading indicators only. This covers neither the other functions that
  capture a token, nor rejected resolutions, nor what follows
  \<^verbatim>\<open>await audioPlayer.play()\<close>.
\<close>

lemma only_current_request_is_applied:
  assumes "mset (map fst cs) = mset (snd (play_requests reqs st0))"
      and "\<forall>(c, r) \<in> set cs. stream_value r"
  shows "let st1 = fst (play_requests reqs st0);
             pend = snd (play_requests reqs st0);
             current = filter (\<lambda>(c, r). is_current st1 c) cs
         in finally_block (fst (settle_all cs st1)) = finally_block (fst (settle_all current st1)) \<and>
            snd (settle_all cs st1) = snd (settle_all current st1) \<and>
            length current \<le> 1 \<and>
            (\<forall>c \<in> set pend. is_current st1 c \<longrightarrow> c = last pend) \<and>
            (reqs \<noteq> [] \<and> length pend = length reqs \<longrightarrow> map fst current = [last pend]) \<and>
            (\<forall>(c, r) \<in> set cs. \<forall>st. \<not> is_current st c \<longrightarrow> resume c r st = (finally_block st, []))"
proof -
  define st1 where "st1 = fst (play_requests reqs st0)"
  define pend where "pend = snd (play_requests reqs st0)"
  define current where "current = filter (\<lambda>(c, r). is_current st1 c) cs"
  note tk = play_requests_tokens [of st0 reqs, folded st1_def pend_def]
  from assms(1) have ms: "mset (map fst cs) = mset pend" by (simp add: pend_def)
  then have se: "set (map fst cs) = set pend" by (rule mset_eq_setD)
  have req: "is_stream_request c" if "(c, r) \<in> set cs" for c r
  proof -
    from that have "c \<in> set (map fst cs)" by force
    with se tk show ?thesis by simp
  qed
  with assms(2) have all: "\<forall>(c, r) \<in> set cs. is_stream_request c \<and> stream_value r"
    by auto
  from settle_all_skips_stale [OF all, of st1 st1]
  have 1: "finally_block (fst (settle_all cs st1)) = finally_block (fst (settle_all current st1))"
    and 2: "snd (settle_all cs st1) = snd (settle_all current st1)"
    by (simp_all add: current_def)
  from tk have "distinct (map captured_token pend)"
    by (simp add: strict_sorted_iff)
  moreover from ms have "mset (map captured_token (map fst cs)) = mset (map captured_token pend)"
    by (metis mset_map)
  ultimately have "distinct (map captured_token (map fst cs))"
    by (metis mset_eq_imp_distinct_iff)
  then have d: "distinct (map (\<lambda>x. captured_token (fst x)) cs)" by (simp add: comp_def)
  have "current = filter (\<lambda>x. captured_token (fst x) = latestPlayRequestToken st1) cs"
    unfolding current_def
    by (rule filter_cong [OF refl]) (auto simp: is_current_token req)
  with filter_key_at_most_one [OF d, of "latestPlayRequestToken st1"]
  have 3: "length current \<le> 1" by simp
  have 4: "c = last pend" if "c \<in> set pend" "is_current st1 c" for c
  proof (rule ccontr)
    assume ne: "c \<noteq> last pend"
    from that have "pend \<noteq> []" by auto
    then have sp: "pend = butlast pend @ [last pend]" by simp
    with that ne have "c \<in> set (butlast pend)"
      by (metis in_set_butlast_appendI rotate1.simps(2) set_ConsD set_rotate1)
    moreover from tk have "sorted_wrt (<) (map captured_token (butlast pend @ [last pend]))"
      using sp by simp
    ultimately have "captured_token c < captured_token (last pend)"
      by (simp add: sorted_wrt_append)
    moreover from tk \<open>pend \<noteq> []\<close> have "captured_token (last pend) \<le> latestPlayRequestToken st1"
      by simp
    moreover from that tk have "captured_token c = latestPlayRequestToken st1"
      by (simp add: is_current_token)
    ultimately show False by simp
  qed
  have 5: "map fst current = [last pend]" if "reqs \<noteq> []" "length pend = length reqs"
  proof -
    from that play_requests_last [of reqs st0, folded st1_def pend_def]
    have ne: "pend \<noteq> []" and cur: "is_current st1 (last pend)" by simp_all
    from ne se have "last pend \<in> set (map fst cs)" by simp
    then obtain r where "(last pend, r) \<in> set cs" by auto
    with cur have "(last pend, r) \<in> set current" by (simp add: current_def)
    with 3 obtain y where y: "current = [y]"
      by (cases current) auto
    with \<open>(last pend, r) \<in> set current\<close> show ?thesis by auto
  qed
  have 6: "resume c r st = (finally_block st, [])"
    if "(c, r) \<in> set cs" "\<not> is_current st c" for c r st
  proof -
    from that(1) all have "is_stream_request c" and "stream_value r" by auto
    then obtain song token v
      where c: "c = AwaitAudioStream song token" and r: "r = StreamSettled (Fulfilled v)"
      by (auto simp: is_stream_request_def stream_value_def
          split: continuation.splits settlement.splits settled.splits)
    from that(2) have "token \<noteq> latestPlayRequestToken st" by (simp add: c is_current_def)
    then show ?thesis unfolding c r by (rule stale_stream_discarded)
  qed
  from 1 2 3 4 5 6 show ?thesis
    unfolding Let_def st1_def [symmetric] pend_def [symmetric] current_def [symmetric]
    by blast
qed


lemma two_requests_run:
  "play_requests two_requests initial_state =
     (two_pending,
      [AwaitAudioStream (demo_track ''S1S1S1S1S1S'') 1, AwaitAudioStream (demo_track ''S2S2S2S2S2S'') 2])"
  by (simp add: two_requests_def two_pending_def initial_state_def playSong_def
      playAudioAndUpdateUI_def setSongForPlayback_def getCurrentItem_def js_index_def
      splice_insert_def splice_start_def demo_track_def Let_def)

lemma only_current_request_is_applied_witness:
  "mset (map fst
      [(AwaitAudioStream (demo_track ''S2S2S2S2S2S'') 2, StreamSettled (Fulfilled (Some ''https://two''))),
       (AwaitAudioStream (demo_track ''S1S1S1S1S1S'') 1, StreamSettled (Fulfilled (Some ''https://one'')))])
     = mset (snd (play_requests two_requests initial_state)) \<and>
   finally_block (fst (settle_all
      [(AwaitAudioStream (demo_track ''S2S2S2S2S2S'') 2, StreamSettled (Fulfilled (Some ''https://two''))),
       (AwaitAudioStream (demo_track ''S1S1S1S1S1S'') 1, StreamSettled (Fulfilled (Some ''https://one'')))]
      two_pending))
     = finally_block (fst (resume (AwaitAudioStream (demo_track ''S2S2S2S2S2S'') 2)
         (StreamSettled (Fulfilled (Some ''https://two''))) two_pending)) \<and>
   audioSrc (fst (settle_all
      [(AwaitAudioStream (demo_track ''S2S2S2S2S2S'') 2, StreamSettled (Fulfilled (Some ''https://two''))),
       (AwaitAudioStream (demo_track ''S1S1S1S1S1S'') 1, StreamSettled (Fulfilled (Some ''https://one'')))]
      two_pending)) = ''https://two''"
proof -
  let ?cs = "[(AwaitAudioStream (demo_track ''S2S2S2S2S2S'') 2, StreamSettled (Fulfilled (Some ''https://two''))),
       (AwaitAudioStream (demo_track ''S1S1S1S1S1S'') 1, StreamSettled (Fulfilled (Some ''https://one'')))]"
  have m: "mset (map fst ?cs) = mset (snd (play_requests two_requests initial_state))"
    by (simp add: two_requests_run)
  have v: "\<forall>(c, r) \<in> set ?cs. stream_value r"
    by (simp add: stream_value_def)
  have f: "filter (\<lambda>(c, r). is_current two_pending c) ?cs =
      [(AwaitAudioStream (demo_track ''S2S2S2S2S2S'') 2, StreamSettled (Fulfilled (Some ''https://two'')))]"
    by (simp add: is_current_def two_pending_def)
  have a: "audioSrc (fst (settle_all ?cs two_pending)) = ''https://two''"
    by (simp add: resume_stream_def two_pending_def finally_block_def catch_block_def
        clearPrefetchedUrl_def)
  from only_current_request_is_applied [OF m v] m a show ?thesis
    unfolding two_requests_run Let_def fst_conv snd_conv f
    by (simp add: split_beta)
qed

subsection \<open>What a superseded request still does\<close>

lemma second_requested_eval:
  "second_requested_while_first_starts =
     initial_state\<lparr>songQueue := [demo_track ''S1S1S1S1S1S'', demo_track ''S2S2S2S2S2S''],
                   currentSongIndex := 1, latestPlayRequestToken := 2,
                   isSongLoading := True, loadingOverlayShown := True, buffering := True,
                   audioSrc := ''https://one'', audioCalls := [Play]\<rparr>"
  by (simp add: second_requested_while_first_starts_def initial_state_def playSong_def
      playAudioAndUpdateUI_def setSongForPlayback_def getCurrentItem_def js_index_def
      splice_insert_def splice_start_def demo_track_def resume_stream_def
      clearPrefetchedUrl_def Let_def)

text \<open>
  C1 at concrete inputs. Only the request whose token is the value of the counter should
  change the now-playing state, and a superseded request should change nothing on the
  page and notify nothing. Three runs of the code do otherwise.
  \<^item> The token is compared after \<^verbatim>\<open>await getAudioStream\<close> only, not after
    \<^verbatim>\<open>await audioPlayer.play()\<close>. The first request sets the audio source and awaits
    \<^verbatim>\<open>play()\<close>; the second request is made (counter 2); when \<^verbatim>\<open>play()\<close> of the first
    settles, the first request writes its title, shows the now-playing box, records its
    id in the history, restarts the recommendation fetch and switches the loading
    indicators of the second request off; when \<^verbatim>\<open>play()\<close> rejects, it notifies the error.
  \<^item> Two requests are made back to back; when the stream of the first resolves, its
    \<^verbatim>\<open>finally\<close> block removes the loading overlay and the \<^verbatim>\<open>buffering\<close> class and resets
    \<^verbatim>\<open>isSongLoading\<close>, while the second request is still loading.
  \<^item> In the same state, when the stream resolution of the first rejects, the error is
    notified.
\<close>

theorem superseded_request_still_writes:
  "snd (playSong (Some (demo_track ''S1S1S1S1S1S'')) None False initial_state)
     = [AwaitAudioStream (demo_track ''S1S1S1S1S1S'') 1] \<and>
   snd (resume (AwaitAudioStream (demo_track ''S1S1S1S1S1S'') 1)
          (StreamSettled (Fulfilled (Some ''https://one'')))
          (fst (playSong (Some (demo_track ''S1S1S1S1S1S'')) None False initial_state)))
     = [AwaitAudioPlay (demo_track ''S1S1S1S1S1S'') 1] \<and>
   latestPlayRequestToken second_requested_while_first_starts = 2 \<and>
   currentSongTitle second_requested_while_first_starts = [] \<and>
   playedHistory second_requested_while_first_starts = [] \<and>
   notifications second_requested_while_first_starts = [] \<and>
   loadingOverlayShown second_requested_while_first_starts \<and>
   currentSongTitle (fst (resume (AwaitAudioPlay (demo_track ''S1S1S1S1S1S'') 1)
      (PlaySettled (Fulfilled ())) second_requested_while_first_starts)) = ''S1S1S1S1S1S'' \<and>
   nowPlayingInfoShown (fst (resume (AwaitAudioPlay (demo_track ''S1S1S1S1S1S'') 1)
      (PlaySettled (Fulfilled ())) second_requested_while_first_starts)) \<and>
   playedHistory (fst (resume (AwaitAudioPlay (demo_track ''S1S1S1S1S1S'') 1)
      (PlaySettled (Fulfilled ())) second_requested_while_first_starts)) = [''S1S1S1S1S1S''] \<and>
   snd (resume (AwaitAudioPlay (demo_track ''S1S1S1S1S1S'') 1)
      (PlaySettled (Fulfilled ())) second_requested_while_first_starts)
     = [AwaitUpNexts (demo_track ''S2S2S2S2S2S'')] \<and>
   \<not> loadingOverlayShown (fst (resume (AwaitAudioPlay (demo_track ''S1S1S1S1S1S'') 1)
      (PlaySettled (Fulfilled ())) second_requested_while_first_starts)) \<and>
   notifications (fst (resume (AwaitAudioPlay (demo_track ''S1S1S1S1S1S'') 1)
      (PlaySettled (Rejected ''The play() request was interrupted''))
      second_requested_while_first_starts))
     = [(''The play() request was interrupted'', ''error'')] \<and>
   latestPlayRequestToken two_pending = 2 \<and> loadingOverlayShown two_pending \<and>
   \<not> loadingOverlayShown (fst (resume (AwaitAudioStream (demo_track ''S1S1S1S1S1S'') 1)
        (StreamSettled (Fulfilled (Some ''https://one''))) two_pending)) \<and>
   \<not> isSongLoading (fst (resume (AwaitAudioStream (demo_track ''S1S1S1S1S1S'') 1)
        (StreamSettled (Fulfilled (Some ''https://one''))) two_pending)) \<and>
   \<not> buffering (fst (resume (AwaitAudioStream (demo_track ''S1S1S1S1S1S'') 1)
        (StreamSettled (Fulfilled (Some ''https://one''))) two_pending)) \<and>
   notifications (fst (resume (AwaitAudioStream (demo_track ''S1S1S1S1S1S'') 1)
        (StreamSettled (Rejected ''Error invoking remote method'')) two_pending))
     = [(''Error invoking remote method'', ''error'')]"
  unfolding second_requested_eval
  by (simp add: two_pending_def initial_state_def playSong_def playAudioAndUpdateUI_def
      setSongForPlayback_def getCurrentItem_def js_index_def splice_insert_def splice_start_def
      demo_track_def resume_stream_def resume_play_def clearPrefetchedUrl_def
      finally_block_def catch_block_def showNotification_def addToHistory_def
      prefetchNext_def fetchUpNext_def thumbnail_url_def artists_text_def Let_def)

subsection \<open>Failures of the stream resolution\<close>

lemma stream_failure_while_current:
  assumes "token = latestPlayRequestToken st"
  shows "resume_stream song token (Fulfilled None) st =
           (finally_block (showNotification ''Could not fetch stream URL'' ''error'' st), [])"
    and "resume_stream song token (Fulfilled (Some [])) st =
           (finally_block (showNotification ''Could not fetch stream URL'' ''error'' st), [])"
    and "message \<noteq> [] \<Longrightarrow> message \<noteq> ''Stale request'' \<Longrightarrow>
         resume_stream song token (Rejected message) st =
           (finally_block (showNotification message ''error'' st), [])"
  using assms by (simp_all add: resume_stream_def catch_block_def)

lemma failure_leaves_audio_untouched:
  "audioSrc (finally_block (showNotification message type st)) = audioSrc st \<and>
   audioCalls (finally_block (showNotification message type st)) = audioCalls st"
  by (simp add: finally_block_def showNotification_def)

text \<open>
  C9 at a concrete input. The first of two requests is superseded. When its stream
  resolution rejects, control goes to \<^verbatim>\<open>catch\<close> before the token is compared, the message
  is not the marker \<^verbatim>\<open>"Stale request"\<close>, and the error is notified. The other cases of the
  claim hold here: a superseded request whose resolution yields \<^verbatim>\<open>null\<close> is silent, and
  the current request whose resolution yields \<^verbatim>\<open>null\<close> is notified, with the audio
  element untouched.
\<close>

theorem stale_rejection_is_notified:
  "latestPlayRequestToken two_pending = 2 \<and> notifications two_pending = [] \<and>
   notifications (fst (resume (AwaitAudioStream (demo_track ''S1S1S1S1S1S'') 1)
      (StreamSettled (Rejected ''Error invoking remote method'')) two_pending))
     = [(''Error invoking remote method'', ''error'')] \<and>
   notifications (fst (resume (AwaitAudioStream (demo_track ''S1S1S1S1S1S'') 1)
      (StreamSettled (Fulfilled None)) two_pending)) = [] \<and>
   notifications (fst (resume (AwaitAudioStream (demo_track ''S2S2S2S2S2S'') 2)
      (StreamSettled (Fulfilled None)) two_pending))
     = [(''Could not fetch stream URL'', ''error'')] \<and>
   audioSrc (fst (resume (AwaitAudioStream (demo_track ''S2S2S2S2S2S'') 2)
      (StreamSettled (Fulfilled None)) two_pending)) = audioSrc two_pending \<and>
   audioCalls (fst (resume (AwaitAudioStream (demo_track ''S2S2S2S2S2S'') 2)
      (StreamSettled (Fulfilled None)) two_pending)) = audioCalls two_pending"
  by (simp add: two_pending_def initial_state_def resume_stream_def finally_block_def
      catch_block_def showNotification_def)

subsection \<open>The prefetched URL\<close>

lemma playAudio_ignores_prefetch:
  "snd (playAudioAndUpdateUI song token (st\<lparr>prefetchedUrl := u, prefetchedId := i\<rparr>)) =
   snd (playAudioAndUpdateUI song token st)"
  by (simp add: playAudioAndUpdateUI_def split: option.splits)

text \<open>
  C2 at a concrete input. The cache holds a URL for track B, the track after the cursor.
  A request for B, by \<^verbatim>\<open>playSong\<close> or by \<^verbatim>\<open>playNextOrUpNext\<close>, opens a stream resolution
  for B and leaves the cache as it is; the source that is played is the one the
  resolution yields, and the cache is cleared then, unread. No function calls
  \<^verbatim>\<open>getPrefetchedUrl\<close>.
\<close>

theorem prefetched_url_is_never_read:
  "getPrefetchedUrl ''BBBBBBBBBBB'' prefetched_state = Some ''https://prefetched/b'' \<and>
   snd (playSong (Some (demo_track ''BBBBBBBBBBB'')) None False prefetched_state)
     = [AwaitAudioStream (demo_track ''BBBBBBBBBBB'') 1] \<and>
   snd (playNextOrUpNext prefetched_state) = [AwaitAudioStream (demo_track ''BBBBBBBBBBB'') 1] \<and>
   prefetchedUrl (fst (playNextOrUpNext prefetched_state)) = Some ''https://prefetched/b'' \<and>
   audioSrc (fst (playNextOrUpNext prefetched_state)) = ''https://resolved/a'' \<and>
   audioSrc (fst (resume (AwaitAudioStream (demo_track ''BBBBBBBBBBB'') 1)
      (StreamSettled (Fulfilled (Some ''https://resolved/b'')))
      (fst (playNextOrUpNext prefetched_state)))) = ''https://resolved/b'' \<and>
   prefetchedUrl (fst (resume (AwaitAudioStream (demo_track ''BBBBBBBBBBB'') 1)
      (StreamSettled (Fulfilled (Some ''https://resolved/b'')))
      (fst (playNextOrUpNext prefetched_state)))) = None"
  by (simp add: prefetched_state_def queue_state_def initial_state_def getPrefetchedUrl_def
      playSong_def playNextOrUpNext_def playAudioAndUpdateUI_def setSongForPlayback_def
      getCurrentItem_def js_index_def demo_track_def resume_stream_def clearPrefetchedUrl_def
      Let_def)

end
